theory Spec2Isabelle
  imports Main "HOL-Library.RBT" "HOL-Library.Char_ord" "HOL-Library.List_Lexorder"
begin

section \<open>The resource manager of hardware\_interface\<close>

text \<open>
  The development embeds \<^verbatim>\<open>hardware_interface/resource_manager.h\<close>: the class template
  \<^verbatim>\<open>ResourceManager<ResourceHandle, ClaimPolicy>\<close> with its three public methods
  \<^verbatim>\<open>getNames\<close>, \<^verbatim>\<open>registerHandle\<close> and \<^verbatim>\<open>getHandle\<close>, and the two claim policies
  \<^verbatim>\<open>ClaimResources\<close> and \<^verbatim>\<open>DontClaimResources\<close>.

  Names are \<^verbatim>\<open>std::string\<close>s, here \<^typ>\<open>string\<close>, ordered as \<^verbatim>\<open>std::less<std::string>\<close>
  orders them: lexicographically, byte by byte, each byte read as an unsigned value
  (the orders of \<open>Char_ord\<close> and \<open>List_Lexorder\<close>).
\<close>

subsection \<open>Data model\<close>

text \<open>
  Modelled from the spec: the template parameter \<^verbatim>\<open>ResourceHandle\<close>. No concrete handle
  class is part of the header; the template asks only for a method
  \<^verbatim>\<open>std::string getName()\<close>, and the specification calls the handle an opaque value
  that exposes a name and is copied in and out. A handle is therefore a name together
  with an arbitrary payload.
\<close>

record 'p ResourceHandle =
  getName :: string
  payload :: 'p

text \<open>
  What a C++ call can throw. \<^verbatim>\<open>getHandle\<close> itself throws a
  \<^verbatim>\<open>HardwareInterfaceException\<close> built from a message; the collaborator may throw that
  or anything else (\<open>ForeignException\<close>).
\<close>

datatype 'x exception = HardwareInterfaceException string | ForeignException 'x

text \<open>
  \<^verbatim>\<open>HardwareInterface::claim\<close> is virtual and declared in a header that is not part of
  the sources at hand, so it is a parameter of the model: given the resource name and
  the state of the \<^verbatim>\<open>HardwareInterface\<close> sub-object it returns the exception it threw,
  if any, and the state it left behind (a C++ function that throws may have changed
  state before doing so).
\<close>

type_synonym ('c, 'x) claim_fn = "string \<Rightarrow> 'c \<Rightarrow> 'x exception option \<times> 'c"

datatype ClaimPolicy = ClaimResources | DontClaimResources

text \<open>
  \<^verbatim>\<open>typedef std::map<std::string, ResourceHandle> ResourceMap\<close>: a search tree with
  unique keys whose iteration visits the keys in increasing order.

  The state of a manager is its \<^verbatim>\<open>resource_map_\<close> (the field \<open>resource_map\<close>:
  an Isabelle name cannot end in an underscore) and the \<^verbatim>\<open>HardwareInterface\<close>
  sub-object \<open>hw\<close> it inherits. Two things the methods read or write outside the object
  are carried along: \<open>type_name\<close>, the demangled \<^verbatim>\<open>typeid\<close> name of the object
  that \<^verbatim>\<open>internal::demangleSymbol\<close> yields, fixed for the life of the object, and
  \<open>console\<close>, the messages handed to \<^verbatim>\<open>ROS_WARN_STREAM\<close> so far.
\<close>

type_synonym 'p ResourceMap = "(string, 'p ResourceHandle) rbt"

record ('p, 'c) ResourceManager =
  resource_map :: "'p ResourceMap"
  hw :: 'c
  type_name :: string
  console :: "string list"

text \<open>A freshly constructed manager: the map is empty and nothing was logged.\<close>

definition new_manager :: "string \<Rightarrow> 'c \<Rightarrow> ('p, 'c) ResourceManager" where
  "new_manager tn c = \<lparr>resource_map = RBT.empty, hw = c, type_name = tn, console = []\<rparr>"

subsection \<open>The operations of \<^verbatim>\<open>std::map\<close> that the header uses\<close>

text \<open>\<^verbatim>\<open>find(key)\<close>: \<open>None\<close> stands for the iterator \<^verbatim>\<open>end()\<close>.\<close>

definition map_find :: "'p ResourceMap \<Rightarrow> string \<Rightarrow> 'p ResourceHandle option" where
  "map_find t key = RBT.lookup t key"

text \<open>\<^verbatim>\<open>insert(std::make_pair(key, value))\<close> adds the pair unless the key is present.\<close>

definition map_insert :: "string \<times> 'p ResourceHandle \<Rightarrow> 'p ResourceMap \<Rightarrow> 'p ResourceMap" where
  "map_insert kv t =
     (case RBT.lookup t (fst kv) of
        None \<Rightarrow> RBT.insert (fst kv) (snd kv) t
      | Some _ \<Rightarrow> t)"

text \<open>\<^verbatim>\<open>it->second = value\<close> for the iterator that \<^verbatim>\<open>find(key)\<close> returned.\<close>

definition assign_second :: "string \<Rightarrow> 'p ResourceHandle \<Rightarrow> 'p ResourceMap \<Rightarrow> 'p ResourceMap" where
  "assign_second key v t = RBT.map_entry key (\<lambda>_. v) t"

subsection \<open>Messages\<close>

definition quote :: string where
  "quote = [CHR 0x27]"

text \<open>
  \<^verbatim>\<open>"Replacing previously registered handle '" << name << "' in '" + type + "'."\<close>
\<close>

definition replacing_message :: "string \<Rightarrow> string \<Rightarrow> string" where
  "replacing_message name tn =
     ''Replacing previously registered handle '' @ quote @ name @ quote @ '' in '' @ quote @ tn
       @ quote @ ''.''"

text \<open>\<^verbatim>\<open>"Could not find resource '" + name + "' in '" + type + "'."\<close>\<close>

definition not_found_message :: "string \<Rightarrow> string \<Rightarrow> string" where
  "not_found_message name tn =
     ''Could not find resource '' @ quote @ name @ quote @ '' in '' @ quote @ tn @ quote @ ''.''"

subsection \<open>The claim policies\<close>

text \<open>
  \<^verbatim>\<open>ClaimResources::claim(hw, name)\<close> is \<^verbatim>\<open>hw->claim(name)\<close>;
  \<^verbatim>\<open>DontClaimResources::claim(hw, name)\<close> has an empty body.
\<close>

fun ClaimPolicy_claim :: "ClaimPolicy \<Rightarrow> ('c, 'x) claim_fn \<Rightarrow> ('c, 'x) claim_fn" where
  "ClaimPolicy_claim ClaimResources hw_claim name c = hw_claim name c"
| "ClaimPolicy_claim DontClaimResources hw_claim name c = (None, c)"

subsection \<open>The methods\<close>

text \<open>
  \<^verbatim>\<open>getNames\<close>: the loop runs over the entries of the map in iteration order and
  pushes each key to the back of \<open>out\<close>.
\<close>

fun getNames_loop :: "(string \<times> 'p ResourceHandle) list \<Rightarrow> string list \<Rightarrow> string list" where
  "getNames_loop [] out = out"
| "getNames_loop (it # rest) out = getNames_loop rest (out @ [fst it])"

definition getNames :: "('p, 'c) ResourceManager \<Rightarrow> string list" where
  "getNames m = getNames_loop (RBT.entries (resource_map m)) []"

text \<open>\<^verbatim>\<open>registerHandle\<close>: insert when the name is new, else warn and overwrite.\<close>

definition registerHandle ::
  "'p ResourceHandle \<Rightarrow> ('p, 'c) ResourceManager \<Rightarrow> ('p, 'c) ResourceManager" where
  "registerHandle handle m =
     (case map_find (resource_map m) (getName handle) of
        None \<Rightarrow> m\<lparr>resource_map := map_insert (getName handle, handle) (resource_map m)\<rparr>
      | Some _ \<Rightarrow>
          m\<lparr>console := console m @ [replacing_message (getName handle) (type_name m)],
            resource_map := assign_second (getName handle) handle (resource_map m)\<rparr>)"

text \<open>
  \<^verbatim>\<open>getHandle\<close>: throw when the name is absent; otherwise run the policy's claim, which
  may throw, and return the handle found. The result is the outcome of the call
  together with the state the call leaves.
\<close>

definition getHandle ::
  "ClaimPolicy \<Rightarrow> ('c, 'x) claim_fn \<Rightarrow> string \<Rightarrow> ('p, 'c) ResourceManager
     \<Rightarrow> ('x exception + 'p ResourceHandle) \<times> ('p, 'c) ResourceManager" where
  "getHandle policy hw_claim name m =
     (case map_find (resource_map m) name of
        None \<Rightarrow> (Inl (HardwareInterfaceException (not_found_message name (type_name m))), m)
      | Some h \<Rightarrow>
          (case ClaimPolicy_claim policy hw_claim name (hw m) of
             (Some e, c) \<Rightarrow> (Inl e, m\<lparr>hw := c\<rparr>)
           | (None, c) \<Rightarrow> (Inr h, m\<lparr>hw := c\<rparr>)))"

subsection \<open>Clients\<close>

text \<open>
  A client calls the public methods one after another. \<open>invoke\<close> is one such call,
  with what it returns or throws; \<open>run\<close> is the state after a sequence of calls by a
  client that carries on after an exception.
\<close>

datatype 'p call = RegisterHandle "'p ResourceHandle" | GetHandle string | GetNames

datatype 'p reply = Void | Handle "'p ResourceHandle" | Names "string list"

fun invoke ::
  "ClaimPolicy \<Rightarrow> ('c, 'x) claim_fn \<Rightarrow> 'p call \<Rightarrow> ('p, 'c) ResourceManager
     \<Rightarrow> ('x exception + 'p reply) \<times> ('p, 'c) ResourceManager" where
  "invoke policy hw_claim (RegisterHandle h) m = (Inr Void, registerHandle h m)"
| "invoke policy hw_claim (GetHandle name) m =
     (case getHandle policy hw_claim name m of
        (Inl e, m') \<Rightarrow> (Inl e, m')
      | (Inr h, m') \<Rightarrow> (Inr (Handle h), m'))"
| "invoke policy hw_claim GetNames m = (Inr (Names (getNames m)), m)"

fun run ::
  "ClaimPolicy \<Rightarrow> ('c, 'x) claim_fn \<Rightarrow> 'p call list \<Rightarrow> ('p, 'c) ResourceManager
     \<Rightarrow> ('p, 'c) ResourceManager" where
  "run policy hw_claim [] m = m"
| "run policy hw_claim (c # cs) m = run policy hw_claim cs (snd (invoke policy hw_claim c m))"

text \<open>The names that a sequence of calls registers.\<close>

fun registered_names :: "'p call list \<Rightarrow> string list" where
  "registered_names [] = []"
| "registered_names (RegisterHandle h # cs) = getName h # registered_names cs"
| "registered_names (_ # cs) = registered_names cs"

text \<open>
  A collaborator that is watched: \<open>traced f\<close> behaves as \<open>f\<close> on the first component
  of its state and appends the name of every invocation to a log kept in the second.
\<close>

definition traced :: "('c, 'x) claim_fn \<Rightarrow> ('c \<times> string list, 'x) claim_fn" where
  "traced hw_claim name s =
     (case hw_claim name (fst s) of (r, c) \<Rightarrow> (r, (c, snd s @ [name])))"

definition claim_log :: "('p, 'c \<times> string list) ResourceManager \<Rightarrow> string list" where
  "claim_log m = snd (hw m)"

text \<open>
  Modelled from the spec: a collaborator of the kind the specification expects, one
  that records which names are held and raises its own error when the name is already
  held. Its state is the list of held names.
\<close>

definition exclusive_claim :: "(string list, string) claim_fn" where
  "exclusive_claim name held =
     (if name \<in> set held then (Some (ForeignException ''already claimed''), held)
      else (None, name # held))"

subsection \<open>Example values\<close>

text \<open>
  Two wheels of a robot, a second handle for the left wheel, and two managers: one
  that holds the left wheel and whose collaborator holds nothing yet, and an empty one
  whose collaborator already holds the left wheel for somebody else.
\<close>

definition wheel_left :: "nat ResourceHandle" where
  "wheel_left = \<lparr>getName = ''wheel_left'', payload = 1\<rparr>"

definition wheel_left_2 :: "nat ResourceHandle" where
  "wheel_left_2 = \<lparr>getName = ''wheel_left'', payload = 7\<rparr>"

definition wheel_right :: "nat ResourceHandle" where
  "wheel_right = \<lparr>getName = ''wheel_right'', payload = 2\<rparr>"

definition joint_states :: "(nat, string list) ResourceManager" where
  "joint_states = registerHandle wheel_left (new_manager ''JointStateInterface'' [])"

definition joint_commands :: "(nat, string list) ResourceManager" where
  "joint_commands = new_manager ''JointCommandInterface'' [''wheel_left'']"

text \<open>The first manager again, with a watched collaborator that has not been called yet.\<close>

definition watched_states :: "(nat, string list \<times> string list) ResourceManager" where
  "watched_states = registerHandle wheel_left (new_manager ''JointStateInterface'' ([], []))"

section \<open>Facts about the map operations\<close>

lemma getNames_loop_append: "getNames_loop es out = out @ map fst es"
  by (induction es arbitrary: out) simp_all

lemma getNames_keys: "getNames m = RBT.keys (resource_map m)"
  by (simp add: getNames_def getNames_loop_append RBT.keys_def_alt)

lemma set_getNames: "set (getNames m) = dom (map_find (resource_map m))"
proof -
  have "map_find (resource_map m) = RBT.lookup (resource_map m)"
    by (rule ext) (simp add: map_find_def)
  then show ?thesis
    by (simp add: getNames_keys RBT.lookup_keys)
qed

lemma lookup_assign_second:
  "RBT.lookup t k = Some w \<Longrightarrow> RBT.lookup (assign_second k v t) = (RBT.lookup t)(k \<mapsto> v)"
  by (rule ext) (simp add: assign_second_def)

lemma lookup_map_insert:
  "RBT.lookup t k = None \<Longrightarrow> RBT.lookup (map_insert (k, v) t) = (RBT.lookup t)(k \<mapsto> v)"
  by (simp add: map_insert_def)

lemma find_registerHandle:
  "map_find (resource_map (registerHandle h m)) = (map_find (resource_map m))(getName h \<mapsto> h)"
proof (cases "RBT.lookup (resource_map m) (getName h)")
  case None
  then show ?thesis
    by (intro ext) (simp add: registerHandle_def map_find_def lookup_map_insert)
next
  case (Some w)
  then show ?thesis
    by (intro ext) (simp add: registerHandle_def map_find_def lookup_assign_second)
qed

lemma set_getNames_registerHandle:
  "set (getNames (registerHandle h m)) = insert (getName h) (set (getNames m))"
  by (simp add: set_getNames find_registerHandle)

lemma distinct_getNames: "distinct (getNames m)"
  by (simp add: getNames_keys)

lemma length_getNames: "length (getNames m) = card (dom (map_find (resource_map m)))"
  using distinct_card [OF distinct_getNames, of m] by (simp add: set_getNames)

lemma length_getNames_registerHandle:
  "length (getNames (registerHandle h m)) =
     (if getName h \<in> set (getNames m) then length (getNames m) else Suc (length (getNames m)))"
proof -
  have "length (getNames (registerHandle h m)) = card (insert (getName h) (set (getNames m)))"
    using distinct_card [OF distinct_getNames, of "registerHandle h m"]
    by (simp add: set_getNames_registerHandle)
  moreover have "length (getNames m) = card (set (getNames m))"
    using distinct_card [OF distinct_getNames, of m] by simp
  ultimately show ?thesis
    by (simp add: insert_absorb)
qed

lemma resource_map_getHandle:
  "resource_map (snd (getHandle policy hw_claim name m)) = resource_map m"
  by (simp add: getHandle_def split: option.splits prod.splits)

lemma snd_invoke_GetHandle:
  "snd (invoke policy hw_claim (GetHandle name) m) = snd (getHandle policy hw_claim name m)"
  by (simp split: prod.splits sum.splits)

lemma resource_map_invoke_dom:
  "dom (map_find (resource_map m)) \<subseteq> dom (map_find (resource_map (snd (invoke policy hw_claim c m))))"
proof (cases c)
  case (RegisterHandle h)
  then show ?thesis by (auto simp: find_registerHandle)
next
  case (GetHandle name)
  have "resource_map (snd (invoke policy hw_claim (GetHandle name) m)) = resource_map m"
    by (simp only: snd_invoke_GetHandle resource_map_getHandle)
  with GetHandle show ?thesis by simp
next
  case GetNames
  then show ?thesis by simp
qed

lemma count_list_distinct:
  "distinct xs \<Longrightarrow> count_list xs x = (if x \<in> set xs then 1 else 0)"
  by (induction xs) auto

lemma hw_registerHandle: "hw (registerHandle h m) = hw m"
  by (simp add: registerHandle_def split: option.splits)

lemma type_name_registerHandle: "type_name (registerHandle h m) = type_name m"
  by (simp add: registerHandle_def split: option.splits)

lemma type_name_getHandle: "type_name (snd (getHandle policy hw_claim name m)) = type_name m"
  by (simp add: getHandle_def split: option.splits prod.splits)

lemma console_getHandle: "console (snd (getHandle policy hw_claim name m)) = console m"
  by (simp add: getHandle_def split: option.splits prod.splits)

section \<open>Facts about sequences of calls\<close>

lemma set_getNames_invoke:
  "set (getNames (snd (invoke policy hw_claim c m))) = set (getNames m) \<union> set (registered_names [c])"
proof (cases c)
  case (RegisterHandle h)
  then show ?thesis by (simp add: set_getNames_registerHandle)
next
  case (GetHandle name)
  then show ?thesis
    by (simp only: snd_invoke_GetHandle set_getNames resource_map_getHandle) simp
next
  case GetNames
  then show ?thesis by simp
qed

lemma registered_names_Cons:
  "set (registered_names (c # cs)) = set (registered_names [c]) \<union> set (registered_names cs)"
  by (cases c) simp_all

lemma set_getNames_run:
  "set (getNames (run policy hw_claim cs m)) = set (getNames m) \<union> set (registered_names cs)"
proof (induction cs arbitrary: m)
  case Nil
  show ?case by simp
next
  case (Cons c cs)
  show ?case
    unfolding run.simps Cons.IH set_getNames_invoke registered_names_Cons [of c cs]
    by (simp add: Un_assoc)
qed

lemma getNames_new_manager: "getNames (new_manager tn c) = []"
  by (simp add: getNames_keys new_manager_def)

lemma getNames_sorted_list: "getNames m = sorted_list_of_set (set (getNames m))"
  by (simp add: getNames_keys sorted_list_of_set.idem_if_sorted_distinct)

section \<open>Facts about lookups, claims and entries\<close>

lemma type_name_invoke: "type_name (snd (invoke policy hw_claim c m)) = type_name m"
proof (cases c)
  case (GetHandle name)
  then show ?thesis by (simp only: snd_invoke_GetHandle type_name_getHandle)
qed (simp_all add: type_name_registerHandle)

lemma type_name_run: "type_name (run policy hw_claim cs m) = type_name m"
  by (induction cs arbitrary: m) (simp_all add: type_name_invoke)

lemma getHandle_absent:
  "map_find (resource_map m) name = None \<Longrightarrow>
     getHandle policy hw_claim name m
       = (Inl (HardwareInterfaceException (not_found_message name (type_name m))), m)"
  by (simp add: getHandle_def)

lemma getHandle_present:
  "map_find (resource_map m) name = Some h \<Longrightarrow>
     getHandle policy hw_claim name m
       = (case ClaimPolicy_claim policy hw_claim name (hw m) of
            (Some e, c) \<Rightarrow> (Inl e, m\<lparr>hw := c\<rparr>)
          | (None, c) \<Rightarrow> (Inr h, m\<lparr>hw := c\<rparr>))"
  by (simp add: getHandle_def)

lemma absent_iff: "map_find (resource_map m) name = None \<longleftrightarrow> name \<notin> set (getNames m)"
  by (auto simp: set_getNames)

lemma claim_log_getHandle_Claim:
  "claim_log (snd (getHandle ClaimResources (traced f) name m))
     = claim_log m @ (if map_find (resource_map m) name = None then [] else [name])"
  by (simp add: getHandle_def traced_def claim_log_def split: option.splits prod.splits)

lemma hw_getHandle_DontClaim: "hw (snd (getHandle DontClaimResources g name m)) = hw m"
  by (simp add: getHandle_def split: option.splits)

lemma hw_invoke_DontClaim: "hw (snd (invoke DontClaimResources g c m)) = hw m"
proof (cases c)
  case (GetHandle name)
  then show ?thesis by (simp only: snd_invoke_GetHandle hw_getHandle_DontClaim)
qed (simp_all add: hw_registerHandle)

lemma hw_run_DontClaim: "hw (run DontClaimResources g cs m) = hw m"
  by (induction cs arbitrary: m) (simp_all add: hw_invoke_DontClaim)

lemma filter_key_unique:
  "distinct (map fst es) \<Longrightarrow> (k, v) \<in> set es \<Longrightarrow> filter (\<lambda>e. fst e = k) es = [(k, v)]"
proof (induction es)
  case Nil
  then show ?case by simp
next
  case (Cons e es)
  show ?case
  proof (cases "fst e = k")
    case True
    with Cons.prems have "k \<notin> fst ` set es" by auto
    then have "filter (\<lambda>e. fst e = k) es = []"
      by (auto simp: filter_empty_conv)
    moreover from Cons.prems True \<open>k \<notin> fst ` set es\<close> have "e = (k, v)"
      by (auto simp: image_iff)
    ultimately show ?thesis by simp
  next
    case False
    with Cons show ?thesis by auto
  qed
qed

lemma filter_key_le1:
  "distinct (map fst es) \<Longrightarrow> length (filter (\<lambda>e. fst e = k) es) \<le> 1"
proof (cases "k \<in> fst ` set es")
  case True
  then obtain v where "(k, v) \<in> set es" by auto
  moreover assume "distinct (map fst es)"
  ultimately show ?thesis by (simp add: filter_key_unique)
next
  case False
  then have "filter (\<lambda>e. fst e = k) es = []"
    by (auto simp: filter_empty_conv)
  then show ?thesis by simp
qed

lemma entries_of_name:
  "map_find (resource_map m) k = Some v \<Longrightarrow>
     filter (\<lambda>e. fst e = k) (RBT.entries (resource_map m)) = [(k, v)]"
  by (simp add: map_find_def RBT.lookup_in_tree RBT.distinct_entries filter_key_unique)

lemma getNames_eqI: "set (getNames m) = set (getNames m') \<Longrightarrow> getNames m = getNames m'"
  using getNames_sorted_list [of m] getNames_sorted_list [of m'] by simp

lemma console_registerHandle:
  "console (registerHandle h m)
     = (if map_find (resource_map m) (getName h) = None then console m
        else console m @ [replacing_message (getName h) (type_name m)])"
  by (simp add: registerHandle_def split: option.splits)

section \<open>The claims\<close>

text \<open>
  C1, as the code has it. For every handle \<open>h\<close> and every state of the registry,
  \<open>registerHandle h\<close> followed by \<open>getHandle\<close> of the name of \<open>h\<close> finds the entry
  and returns a value equal to \<open>h\<close>, provided the claim step of the lookup does not
  throw. Under \<open>DontClaimResources\<close> it never does, so the handle always comes back.
  Under \<open>ClaimResources\<close> the outcome is decided by the collaborator's claim of that
  name on the state the collaborator is in: the handle \<open>h\<close> when it returns, its
  exception when it throws. No other handle and no lookup failure is possible.
\<close>

theorem registerHandle_then_getHandle:
  "fst (getHandle DontClaimResources hw_claim (getName h) (registerHandle h m)) = Inr h
   \<and> fst (getHandle ClaimResources hw_claim (getName h) (registerHandle h m))
       = (case fst (hw_claim (getName h) (hw m)) of None \<Rightarrow> Inr h | Some e \<Rightarrow> Inl e)"
proof -
  have "map_find (resource_map (registerHandle h m)) (getName h) = Some h"
    by (simp add: find_registerHandle)
  then show ?thesis
    by (simp add: getHandle_present hw_registerHandle split: prod.splits option.splits)
qed

theorem registerHandle_then_getHandle_witness:
  "fst (getHandle DontClaimResources exclusive_claim ''wheel_right'' (registerHandle wheel_right joint_states))
     = Inr wheel_right
   \<and> fst (getHandle ClaimResources exclusive_claim ''wheel_right'' (registerHandle wheel_right joint_states))
     = Inr wheel_right"
proof -
  have n: "getName wheel_right = ''wheel_right''"
    by (simp add: wheel_right_def)
  have h: "hw joint_states = []"
    by (simp add: joint_states_def hw_registerHandle) (simp add: new_manager_def)
  show ?thesis
    using registerHandle_then_getHandle [of exclusive_claim wheel_right joint_states]
    by (simp add: n h exclusive_claim_def)
qed

text \<open>
  Without the proviso the statement fails. The registry \<open>joint_commands\<close> holds no
  handle, so the name of \<open>wheel_left\<close> is shared with none; its collaborator already
  holds that name for another party. Registering \<open>wheel_left\<close> and asking for it under
  \<open>ClaimResources\<close> ends in the collaborator's exception, not in the handle.
\<close>

theorem registerHandle_then_getHandle_counterexample:
  "getNames joint_commands = []
   \<and> fst (getHandle ClaimResources exclusive_claim (getName wheel_left)
          (registerHandle wheel_left joint_commands))
       = Inl (ForeignException ''already claimed'')
   \<and> fst (getHandle ClaimResources exclusive_claim (getName wheel_left)
          (registerHandle wheel_left joint_commands))
       \<noteq> Inr wheel_left"
  by (simp add: getHandle_def registerHandle_def joint_commands_def new_manager_def map_find_def
      map_insert_def exclusive_claim_def wheel_left_def getNames_keys)

text \<open>
  C2. With a watched collaborator, a lookup under \<open>ClaimResources\<close> extends the log of
  claim invocations by exactly the requested name when the name is present, and by
  nothing when it is absent: one invocation, with that name, and only after the name was
  found. The handle is returned only if that invocation did not throw, so the invocation
  comes before the return. For any collaborator \<open>g\<close> the state of the
  \<open>HardwareInterface\<close> part after the lookup is the one a single \<open>g name\<close> leaves.
  Under \<open>DontClaimResources\<close> the log never grows and the \<open>HardwareInterface\<close> part
  never changes, for one lookup and for any sequence of calls of the public methods.
\<close>

theorem claim_called_by_policy:
  "claim_log (snd (getHandle ClaimResources (traced f) name m))
     = claim_log m @ (if map_find (resource_map m) name = None then [] else [name])
   \<and> fst (getHandle ClaimResources (traced f) name m)
     = (case map_find (resource_map m) name of
          None \<Rightarrow> Inl (HardwareInterfaceException (not_found_message name (type_name m)))
        | Some h \<Rightarrow> (case fst (f name (fst (hw m))) of None \<Rightarrow> Inr h | Some e \<Rightarrow> Inl e))
   \<and> hw (snd (getHandle ClaimResources g name m))
     = (if map_find (resource_map m) name = None then hw m else snd (g name (hw m)))
   \<and> claim_log (snd (getHandle DontClaimResources (traced f) name m)) = claim_log m
   \<and> claim_log (run DontClaimResources (traced f) cs m) = claim_log m
   \<and> hw (run DontClaimResources g cs m) = hw m"
proof -
  have "fst (getHandle ClaimResources (traced f) name m)
     = (case map_find (resource_map m) name of
          None \<Rightarrow> Inl (HardwareInterfaceException (not_found_message name (type_name m)))
        | Some h \<Rightarrow> (case fst (f name (fst (hw m))) of None \<Rightarrow> Inr h | Some e \<Rightarrow> Inl e))"
    by (simp add: getHandle_def traced_def split: option.splits prod.splits)
  moreover have "hw (snd (getHandle ClaimResources g name m))
     = (if map_find (resource_map m) name = None then hw m else snd (g name (hw m)))"
    by (simp add: getHandle_def split: option.splits prod.splits)
  moreover have "claim_log (snd (getHandle DontClaimResources (traced f) name m)) = claim_log m"
    by (simp add: claim_log_def hw_getHandle_DontClaim)
  moreover have "claim_log (run DontClaimResources (traced f) cs m) = claim_log m"
    by (simp add: claim_log_def hw_run_DontClaim)
  moreover note claim_log_getHandle_Claim [of f name m] hw_run_DontClaim [of g cs m]
  ultimately show ?thesis
    by (intro conjI)
qed

theorem claim_called_by_policy_witness:
  "claim_log watched_states = []
   \<and> claim_log (snd (getHandle ClaimResources (traced exclusive_claim) ''wheel_left'' watched_states))
       = [''wheel_left'']
   \<and> claim_log (snd (getHandle ClaimResources (traced exclusive_claim) ''wheel_right'' watched_states))
       = []
   \<and> claim_log (run DontClaimResources (traced exclusive_claim)
         [GetHandle ''wheel_left'', RegisterHandle wheel_right, GetHandle ''wheel_right'', GetNames]
         watched_states) = []"
proof -
  have l: "claim_log watched_states = []"
    by (simp add: claim_log_def watched_states_def hw_registerHandle) (simp add: new_manager_def)
  have a: "map_find (resource_map watched_states) ''wheel_left'' = Some wheel_left"
    by (simp add: watched_states_def find_registerHandle wheel_left_def)
  have b: "map_find (resource_map watched_states) ''wheel_right'' = None"
    by (simp add: watched_states_def find_registerHandle wheel_left_def)
      (simp add: new_manager_def map_find_def)
  have "claim_log (snd (getHandle ClaimResources (traced exclusive_claim) ''wheel_left'' watched_states))
      = [''wheel_left'']"
    using claim_called_by_policy [of exclusive_claim "''wheel_left''" watched_states, THEN conjunct1]
    by (simp add: l a)
  moreover
  have "claim_log (snd (getHandle ClaimResources (traced exclusive_claim) ''wheel_right'' watched_states))
      = []"
    using claim_called_by_policy [of exclusive_claim "''wheel_right''" watched_states, THEN conjunct1]
    by (simp add: l b)
  moreover
  have "claim_log (run DontClaimResources (traced exclusive_claim)
         [GetHandle ''wheel_left'', RegisterHandle wheel_right, GetHandle ''wheel_right'', GetNames]
         watched_states) = []"
    using claim_called_by_policy [of exclusive_claim "''wheel_left''" watched_states "traced exclusive_claim"
        "[GetHandle ''wheel_left'', RegisterHandle wheel_right, GetHandle ''wheel_right'', GetNames]",
        THEN conjunct2, THEN conjunct2, THEN conjunct2, THEN conjunct2, THEN conjunct1]
    by (simp only: l)
  ultimately show ?thesis
    using l by (intro conjI)
qed

text \<open>
  C3. If a name is absent from a registry and none of the calls \<open>cs\<close> made afterwards
  registers it, then \<open>getHandle\<close> of that name throws the
  \<open>HardwareInterfaceException\<close> whose message is
  \<^verbatim>\<open>Could not find resource '<name>' in '<type>'.\<close>, with the requested name and the
  type name of the registry in it. No handle is returned and the state stays as it was.
  A registry that started empty is the case where \<open>m\<close> is a new manager.
\<close>

theorem getHandle_never_registered:
  assumes "map_find (resource_map m) name = None" and "name \<notin> set (registered_names cs)"
  shows "getHandle policy hw_claim name (run policy hw_claim cs m)
           = (Inl (HardwareInterfaceException
                 (''Could not find resource '' @ quote @ name @ quote @ '' in '' @ quote
                    @ type_name m @ quote @ ''.'')),
              run policy hw_claim cs m)"
proof -
  from assms have "name \<notin> set (getNames (run policy hw_claim cs m))"
    by (simp add: set_getNames_run absent_iff)
  then have "map_find (resource_map (run policy hw_claim cs m)) name = None"
    by (simp add: absent_iff)
  then show ?thesis
    by (simp add: getHandle_absent type_name_run not_found_message_def)
qed

theorem getHandle_never_registered_witness:
  "getHandle ClaimResources exclusive_claim ''wheel_right''
       (run ClaimResources exclusive_claim [RegisterHandle wheel_left_2, GetNames, GetHandle ''wheel_left''] joint_states)
     = (Inl (HardwareInterfaceException
               (''Could not find resource '' @ quote @ ''wheel_right'' @ quote @ '' in '' @ quote
                  @ ''JointStateInterface'' @ quote @ ''.'')),
        run ClaimResources exclusive_claim [RegisterHandle wheel_left_2, GetNames, GetHandle ''wheel_left''] joint_states)"
proof -
  have a: "map_find (resource_map joint_states) ''wheel_right'' = None"
    by (simp add: joint_states_def find_registerHandle wheel_left_def)
      (simp add: new_manager_def map_find_def)
  have b: "''wheel_right'' \<notin> set (registered_names [RegisterHandle wheel_left_2, GetNames, GetHandle ''wheel_left''])"
    by (simp add: wheel_left_2_def)
  have t: "type_name joint_states = ''JointStateInterface''"
    by (simp add: joint_states_def type_name_registerHandle) (simp add: new_manager_def)
  show ?thesis
    using getHandle_never_registered [OF a b, of ClaimResources exclusive_claim]
    by (simp only: t)
qed

text \<open>
  C4. For every state and all handles \<open>h1\<close>, \<open>h2\<close> of the same name, after
  \<open>registerHandle h1\<close> and then \<open>registerHandle h2\<close> the name maps to \<open>h2\<close>, the map has
  exactly one entry under that name and it is \<open>h2\<close>, the name occurs once in
  \<open>getNames\<close>, the list of names (hence its length) is the one after the first
  registration alone, the second call returns normally, and it leaves one warning on the
  console that names the resource and the type of the registry.
\<close>

theorem duplicate_registration_overwrites:
  assumes "getName h1 = getName h2"
  shows "map_find (resource_map (registerHandle h2 (registerHandle h1 m))) (getName h2) = Some h2
   \<and> filter (\<lambda>e. fst e = getName h2) (RBT.entries (resource_map (registerHandle h2 (registerHandle h1 m))))
       = [(getName h2, h2)]
   \<and> count_list (getNames (registerHandle h2 (registerHandle h1 m))) (getName h2) = 1
   \<and> getNames (registerHandle h2 (registerHandle h1 m)) = getNames (registerHandle h1 m)
   \<and> length (getNames (registerHandle h2 (registerHandle h1 m))) = length (getNames (registerHandle h1 m))
   \<and> invoke policy hw_claim (RegisterHandle h2) (registerHandle h1 m)
       = (Inr Void, registerHandle h2 (registerHandle h1 m))
   \<and> console (registerHandle h2 (registerHandle h1 m))
       = console (registerHandle h1 m) @ [replacing_message (getName h2) (type_name m)]"
proof -
  let ?m1 = "registerHandle h1 m" and ?m2 = "registerHandle h2 (registerHandle h1 m)"
  have found: "map_find (resource_map ?m2) (getName h2) = Some h2"
    by (simp add: find_registerHandle)
  have names: "getNames ?m2 = getNames ?m1"
    using assms by (intro getNames_eqI) (simp add: set_getNames_registerHandle)
  have "getName h2 \<in> set (getNames ?m2)"
    by (simp add: set_getNames_registerHandle)
  then have once: "count_list (getNames ?m2) (getName h2) = 1"
    using count_list_distinct [OF distinct_getNames, of ?m2 "getName h2"] by simp
  have "map_find (resource_map ?m1) (getName h2) = Some h1"
    using assms by (simp add: find_registerHandle)
  then have warned: "console ?m2 = console ?m1 @ [replacing_message (getName h2) (type_name m)]"
    by (simp add: console_registerHandle type_name_registerHandle)
  from found names once warned entries_of_name [OF found] show ?thesis
    by simp
qed

theorem duplicate_registration_overwrites_witness:
  "getName wheel_left = getName wheel_left_2
   \<and> map_find (resource_map (registerHandle wheel_left_2 (registerHandle wheel_left joint_commands)))
        ''wheel_left'' = Some wheel_left_2
   \<and> getNames (registerHandle wheel_left_2 (registerHandle wheel_left joint_commands)) = [''wheel_left'']
   \<and> console (registerHandle wheel_left_2 (registerHandle wheel_left joint_commands))
       = [replacing_message ''wheel_left'' ''JointCommandInterface'']"
proof -
  have a: "getName wheel_left = getName wheel_left_2"
    by (simp add: wheel_left_def wheel_left_2_def)
  have n: "getName wheel_left_2 = ''wheel_left''"
    by (simp add: wheel_left_2_def)
  have g: "getNames (registerHandle wheel_left joint_commands) = [''wheel_left'']"
    by code_simp
  have c: "console (registerHandle wheel_left joint_commands) = []"
    by code_simp
  have t: "type_name joint_commands = ''JointCommandInterface''"
    by (simp add: joint_commands_def new_manager_def)
  show ?thesis
    using duplicate_registration_overwrites [OF a, of joint_commands]
    by (simp add: a n g c t)
qed

text \<open>
  C5. In every state of the registry, \<open>getNames\<close> returns each registered name exactly
  once: the result has no duplicates, its elements are exactly the names present in the
  map, a name occurs once if it is present and not at all otherwise, and the length is
  the number of names present. For a registry that started empty and received the calls
  \<open>cs\<close>, these are the names that \<open>cs\<close> registered, counted without repetition. The
  call returns the list and leaves the state as it was.
\<close>

theorem getNames_each_name_once:
  "distinct (getNames m)
   \<and> set (getNames m) = dom (map_find (resource_map m))
   \<and> count_list (getNames m) n = (if map_find (resource_map m) n = None then 0 else 1)
   \<and> length (getNames m) = card (dom (map_find (resource_map m)))
   \<and> set (getNames (run policy hw_claim cs (new_manager tn c))) = set (registered_names cs)
   \<and> length (getNames (run policy hw_claim cs (new_manager tn c))) = card (set (registered_names cs))
   \<and> invoke policy hw_claim GetNames m = (Inr (Names (getNames m)), m)"
proof -
  have "count_list (getNames m) n = (if map_find (resource_map m) n = None then 0 else 1)"
    using count_list_distinct [OF distinct_getNames, of m n]
    by (auto simp: set_getNames)
  moreover have "set (getNames (run policy hw_claim cs (new_manager tn c))) = set (registered_names cs)"
    by (simp add: set_getNames_run getNames_new_manager)
  moreover from this
  have "length (getNames (run policy hw_claim cs (new_manager tn c))) = card (set (registered_names cs))"
    using distinct_card [OF distinct_getNames, of "run policy hw_claim cs (new_manager tn c)"]
    by simp
  ultimately show ?thesis
    by (simp add: distinct_getNames set_getNames length_getNames)
qed

theorem getNames_each_name_once_witness:
  "getNames (run ClaimResources exclusive_claim
       [RegisterHandle wheel_right, RegisterHandle wheel_left, RegisterHandle wheel_left_2]
       joint_commands) = [''wheel_left'', ''wheel_right'']
   \<and> length (getNames (run ClaimResources exclusive_claim
       [RegisterHandle wheel_right, RegisterHandle wheel_left, RegisterHandle wheel_left_2]
       joint_commands)) = card {''wheel_right'', ''wheel_left''}"
proof -
  have g: "getNames (run ClaimResources exclusive_claim
       [RegisterHandle wheel_right, RegisterHandle wheel_left, RegisterHandle wheel_left_2]
       joint_commands) = [''wheel_left'', ''wheel_right'']"
    by code_simp
  have r: "set (registered_names [RegisterHandle wheel_right, RegisterHandle wheel_left, RegisterHandle wheel_left_2])
      = {''wheel_right'', ''wheel_left''}"
    by (simp add: wheel_left_def wheel_left_2_def wheel_right_def)
  have "length (getNames (run ClaimResources exclusive_claim
       [RegisterHandle wheel_right, RegisterHandle wheel_left, RegisterHandle wheel_left_2]
       joint_commands)) = card {''wheel_right'', ''wheel_left''}"
    using getNames_each_name_once [of joint_commands "''wheel_left''" ClaimResources exclusive_claim
        "[RegisterHandle wheel_right, RegisterHandle wheel_left, RegisterHandle wheel_left_2]"
        "''JointCommandInterface''" "[''wheel_left'']",
        THEN conjunct2, THEN conjunct2, THEN conjunct2, THEN conjunct2, THEN conjunct2, THEN conjunct1]
    by (simp only: r joint_commands_def)
  with g show ?thesis by simp
qed

text \<open>
  C6. In every state the map has at most one entry under any name \<open>n\<close>, and a name
  that is present stays present after \<open>registerHandle\<close>, after \<open>getHandle\<close>, after
  any single call of a public method and after any sequence of such calls.
\<close>

theorem entries_never_removed:
  "length (filter (\<lambda>e. fst e = n) (RBT.entries (resource_map m))) \<le> 1
   \<and> (map_find (resource_map m) n \<noteq> None \<longrightarrow>
        map_find (resource_map (registerHandle h m)) n \<noteq> None
        \<and> map_find (resource_map (snd (getHandle policy hw_claim name m))) n \<noteq> None
        \<and> map_find (resource_map (snd (invoke policy hw_claim c m))) n \<noteq> None
        \<and> map_find (resource_map (run policy hw_claim cs m)) n \<noteq> None)"
proof -
  have "length (filter (\<lambda>e. fst e = n) (RBT.entries (resource_map m))) \<le> 1"
    by (rule filter_key_le1) (rule RBT.distinct_entries)
  moreover have "map_find (resource_map (run policy hw_claim cs m)) n \<noteq> None"
    if "map_find (resource_map m) n \<noteq> None"
    using that set_getNames_run [of policy hw_claim cs m] by (auto simp: absent_iff)
  moreover have "map_find (resource_map (snd (invoke policy hw_claim c m))) n \<noteq> None"
    if "map_find (resource_map m) n \<noteq> None"
    using that resource_map_invoke_dom [of m policy hw_claim c] by auto
  ultimately show ?thesis
    by (simp add: find_registerHandle resource_map_getHandle)
qed

theorem entries_never_removed_witness:
  "map_find (resource_map joint_states) ''wheel_left'' \<noteq> None
   \<and> map_find (resource_map (run ClaimResources exclusive_claim
          [RegisterHandle wheel_left_2, GetHandle ''wheel_left'', GetNames, RegisterHandle wheel_right]
          joint_states)) ''wheel_left'' \<noteq> None"
proof -
  have a: "map_find (resource_map joint_states) ''wheel_left'' \<noteq> None"
    by (simp add: joint_states_def find_registerHandle wheel_left_def)
  show ?thesis
    using a entries_never_removed [of "''wheel_left''" joint_states
        wheel_left ClaimResources exclusive_claim "''wheel_left''" GetNames
        "[RegisterHandle wheel_left_2, GetHandle ''wheel_left'', GetNames, RegisterHandle wheel_right]"]
    by blast
qed

text \<open>
  C7. Under \<open>ClaimResources\<close>, when the name is present and the collaborator's claim
  throws \<open>e\<close> leaving its state \<open>c\<close>, \<open>getHandle\<close> ends in that same \<open>e\<close>; the
  registry is as before except for the collaborator's state, which is the \<open>c\<close> that the
  one invocation left. Nothing is caught, replaced or tried again.
\<close>

theorem claim_error_propagates:
  assumes "map_find (resource_map m) name = Some h" and "hw_claim name (hw m) = (Some e, c)"
  shows "getHandle ClaimResources hw_claim name m = (Inl e, m\<lparr>hw := c\<rparr>)
         \<and> invoke ClaimResources hw_claim (GetHandle name) m = (Inl e, m\<lparr>hw := c\<rparr>)"
  using assms by (simp add: getHandle_present)

theorem claim_error_propagates_witness:
  "map_find (resource_map (registerHandle wheel_left joint_commands)) ''wheel_left'' = Some wheel_left
   \<and> exclusive_claim ''wheel_left'' (hw (registerHandle wheel_left joint_commands))
       = (Some (ForeignException ''already claimed''), [''wheel_left''])
   \<and> getHandle ClaimResources exclusive_claim ''wheel_left'' (registerHandle wheel_left joint_commands)
       = (Inl (ForeignException ''already claimed''),
          (registerHandle wheel_left joint_commands)\<lparr>hw := [''wheel_left'']\<rparr>)"
proof -
  let ?m = "registerHandle wheel_left joint_commands"
  have a: "map_find (resource_map ?m) ''wheel_left'' = Some wheel_left"
    by (simp add: find_registerHandle wheel_left_def)
  have h: "hw ?m = [''wheel_left'']"
    by (simp add: hw_registerHandle) (simp add: joint_commands_def new_manager_def)
  have b: "exclusive_claim ''wheel_left'' (hw ?m)
      = (Some (ForeignException ''already claimed''), [''wheel_left''])"
    by (simp add: h exclusive_claim_def)
  show ?thesis
    using a b claim_error_propagates [where hw_claim = exclusive_claim, OF a b] by simp
qed

text \<open>
  C8. \<open>registerHandle\<close> returns normally for every handle and every state. Afterwards
  the map is the old one with the name of the handle bound to the handle: one name more
  if the name was new, the same number of names if it was overwritten. The empty name
  is a key like any other.
\<close>

theorem registerHandle_always_succeeds:
  "invoke policy hw_claim (RegisterHandle h) m = (Inr Void, registerHandle h m)
   \<and> map_find (resource_map (registerHandle h m)) = (map_find (resource_map m))(getName h \<mapsto> h)
   \<and> length (getNames (registerHandle h m))
       = (if map_find (resource_map m) (getName h) = None then Suc (length (getNames m))
          else length (getNames m))
   \<and> map_find (resource_map (registerHandle (h\<lparr>getName := []\<rparr>) m)) [] = Some (h\<lparr>getName := []\<rparr>)"
  by (simp add: find_registerHandle length_getNames_registerHandle absent_iff)

theorem registerHandle_always_succeeds_witness:
  "invoke ClaimResources exclusive_claim (RegisterHandle (wheel_left\<lparr>getName := []\<rparr>)) joint_states
     = (Inr Void, registerHandle (wheel_left\<lparr>getName := []\<rparr>) joint_states)
   \<and> getNames (registerHandle (wheel_left\<lparr>getName := []\<rparr>) joint_states) = [[], ''wheel_left'']
   \<and> map_find (resource_map (registerHandle (wheel_left\<lparr>getName := []\<rparr>) joint_states)) []
       = Some (wheel_left\<lparr>getName := []\<rparr>)"
proof -
  have g: "getNames (registerHandle (wheel_left\<lparr>getName := []\<rparr>) joint_states) = [[], ''wheel_left'']"
    by code_simp
  show ?thesis
    using g registerHandle_always_succeeds [of ClaimResources exclusive_claim wheel_left joint_states]
    by simp
qed

text \<open>
  C9. In every state of the registry, \<open>getNames\<close> returns the names in strictly
  increasing lexicographic order: the result is the sorted enumeration of the set of
  names present, so it is determined by that set alone. For a registry that started
  empty it is the sorted enumeration of the names registered, whatever the order of the
  registrations.
\<close>

theorem getNames_strictly_increasing:
  "sorted_wrt (<) (getNames m)
   \<and> getNames m = sorted_list_of_set (dom (map_find (resource_map m)))
   \<and> getNames (run policy hw_claim cs (new_manager tn c))
       = sorted_list_of_set (set (registered_names cs))"
proof -
  have "sorted_wrt (<) (getNames m)"
    by (simp add: getNames_keys strict_sorted_iff)
  moreover have "getNames m = sorted_list_of_set (dom (map_find (resource_map m)))"
    using getNames_sorted_list [of m] by (simp add: set_getNames)
  moreover have "getNames (run policy hw_claim cs (new_manager tn c))
      = sorted_list_of_set (set (registered_names cs))"
    using getNames_sorted_list [of "run policy hw_claim cs (new_manager tn c)"]
    by (simp add: set_getNames_run getNames_new_manager)
  ultimately show ?thesis by simp
qed

theorem getNames_strictly_increasing_witness:
  "getNames (run ClaimResources exclusive_claim
       [RegisterHandle wheel_right, RegisterHandle wheel_left] joint_commands)
     = [''wheel_left'', ''wheel_right'']
   \<and> sorted_wrt (<) [''wheel_left'', ''wheel_right'']"
proof -
  have g: "getNames (run ClaimResources exclusive_claim
       [RegisterHandle wheel_right, RegisterHandle wheel_left] joint_commands)
     = [''wheel_left'', ''wheel_right'']"
    by code_simp
  show ?thesis
    using getNames_strictly_increasing [of "run ClaimResources exclusive_claim
       [RegisterHandle wheel_right, RegisterHandle wheel_left] joint_commands"]
    by (simp only: g) simp
qed

text \<open>
  C10. \<open>getHandle\<close> leaves the map, the list of names, the console and the type name
  as they were, whatever its outcome. When the name is absent the whole state is
  unchanged, the part of the collaborator included, so no claim took place, and the
  outcome is the exception for a name that was not found.
\<close>

theorem getHandle_read_only:
  "resource_map (snd (getHandle policy hw_claim name m)) = resource_map m
   \<and> getNames (snd (getHandle policy hw_claim name m)) = getNames m
   \<and> console (snd (getHandle policy hw_claim name m)) = console m
   \<and> type_name (snd (getHandle policy hw_claim name m)) = type_name m
   \<and> (map_find (resource_map m) name = None \<longrightarrow>
        getHandle policy hw_claim name m
          = (Inl (HardwareInterfaceException (not_found_message name (type_name m))), m))"
  by (simp add: resource_map_getHandle console_getHandle type_name_getHandle getNames_keys
      getHandle_absent)

theorem getHandle_read_only_witness:
  "map_find (resource_map joint_states) ''wheel_right'' = None
   \<and> getHandle ClaimResources exclusive_claim ''wheel_right'' joint_states
       = (Inl (HardwareInterfaceException (not_found_message ''wheel_right'' ''JointStateInterface'')),
          joint_states)
   \<and> resource_map (snd (getHandle ClaimResources exclusive_claim ''wheel_left'' joint_states))
       = resource_map joint_states"
proof -
  have a: "map_find (resource_map joint_states) ''wheel_right'' = None"
    by (simp add: joint_states_def find_registerHandle wheel_left_def)
      (simp add: new_manager_def map_find_def)
  have t: "type_name joint_states = ''JointStateInterface''"
    by (simp add: joint_states_def type_name_registerHandle) (simp add: new_manager_def)
  show ?thesis
    using a t
      getHandle_read_only [of ClaimResources exclusive_claim "''wheel_right''" joint_states]
      getHandle_read_only [of ClaimResources exclusive_claim "''wheel_left''" joint_states]
    by simp
qed

end
